theory Spec2Isabelle
  imports Main "HOL-Library.Sublist"
begin

section \<open>Python strings\<close>

text \<open>
  A Python \<^verbatim>\<open>str\<close> is a sequence of Unicode code points, so it is modelled as a list
  of code point numbers. The 8-bit \<^typ>\<open>char\<close> of HOL cannot hold the arrow U+2192 of the
  status line, nor the wide blanks that \<^verbatim>\<open>str.strip\<close> removes. \<open>ascii\<close> embeds an
  ASCII literal.
\<close>

type_synonym codepoint = nat
type_synonym str = "codepoint list"

definition ascii :: "string \<Rightarrow> str" where
  "ascii s = map of_char s"

text \<open>
  \<^verbatim>\<open>str.isspace\<close> on one code point, which is the set \<^verbatim>\<open>str.strip()\<close> removes:
  U+0009..U+000D, U+001C..U+0020, U+0085, U+00A0, U+1680, U+2000..U+200A, U+2028, U+2029,
  U+202F, U+205F, U+3000.
\<close>

definition isspace :: "codepoint \<Rightarrow> bool" where
  "isspace c \<longleftrightarrow>
     (0x09 \<le> c \<and> c \<le> 0x0D) \<or> (0x1C \<le> c \<and> c \<le> 0x20) \<or> c = 0x85 \<or> c = 0xA0 \<or>
     c = 0x1680 \<or> (0x2000 \<le> c \<and> c \<le> 0x200A) \<or> c = 0x2028 \<or> c = 0x2029 \<or>
     c = 0x202F \<or> c = 0x205F \<or> c = 0x3000"

text \<open>\<^verbatim>\<open>text.strip()\<close>: leading blanks go, then trailing blanks.\<close>

definition strip :: "str \<Rightarrow> str" where
  "strip s = rev (dropWhile isspace (rev (dropWhile isspace s)))"

text \<open>\<^verbatim>\<open>sub in s\<close>: \<open>sub\<close> starts at some position of \<open>s\<close>.\<close>

fun contains :: "str \<Rightarrow> str \<Rightarrow> bool" where
  "contains sub [] = (sub = [])"
| "contains sub (c # cs) = (prefix sub (c # cs) \<or> contains sub cs)"

text \<open>\<^verbatim>\<open>sep.join(parts)\<close>\<close>

fun join :: "str \<Rightarrow> str list \<Rightarrow> str" where
  "join sep [] = []"
| "join sep [p] = p"
| "join sep (p # q # ps) = p @ sep @ join sep (q # ps)"

section \<open>normalize_url\<close>

definition normalize_url :: "str \<Rightarrow> str" where
  "normalize_url text0 =
     (let text = strip text0 in
      if text = [] then ascii ''http://example.com''
      else
        let text = (if \<not> contains (ascii ''://'') text then ascii ''http://'' @ text else text)
        in text)"

section \<open>resolve_dns\<close>

text \<open>
  An exception is a value. \<open>Exception msg\<close> stands for an instance of any subclass of
  Python's \<^verbatim>\<open>Exception\<close> (\<^verbatim>\<open>socket.gaierror\<close>, \<^verbatim>\<open>UnicodeError\<close>, \<^verbatim>\<open>ValueError\<close>, ...)
  whose \<^verbatim>\<open>str()\<close> is \<open>msg\<close>: the class that \<^verbatim>\<open>except Exception\<close> catches.
\<close>

datatype exn = Exception (str_of: str)

text \<open>
  One record of \<^verbatim>\<open>socket.getaddrinfo\<close>: \<^verbatim>\<open>(family, type, proto, canonname, sockaddr)\<close>,
  where \<^verbatim>\<open>sockaddr\<close> is \<^verbatim>\<open>(address, port)\<close> for AF_INET and
  \<^verbatim>\<open>(address, port, flowinfo, scope_id)\<close> for AF_INET6.
\<close>

datatype sockaddr =
  Sockaddr_in str nat
| Sockaddr_in6 str nat nat nat

text \<open>\<^verbatim>\<open>sockaddr[0]\<close>\<close>

fun sockaddr0 :: "sockaddr \<Rightarrow> str" where
  "sockaddr0 (Sockaddr_in a port) = a"
| "sockaddr0 (Sockaddr_in6 a port flowinfo scope_id) = a"

record addrinfo =
  fam :: int
  stype :: int
  proto :: int
  canon :: str
  sockaddr :: sockaddr

text \<open>The \<^verbatim>\<open>for\<close> loop of \<open>resolve_dns\<close>, with the list \<^verbatim>\<open>ips\<close> built so far.\<close>

fun collect_ips :: "addrinfo list \<Rightarrow> str list \<Rightarrow> str list" where
  "collect_ips [] ips = ips"
| "collect_ips (info # infos) ips =
     (let ip = sockaddr0 (sockaddr info)
      in collect_ips infos (if ip \<notin> set ips then ips @ [ip] else ips))"

text \<open>
  The system resolver \<^verbatim>\<open>socket.getaddrinfo(hostname, None)\<close> is a parameter: it raises
  (\<open>Inl\<close>) or returns records (\<open>Inr\<close>). The result type of \<open>resolve_dns\<close> keeps the
  exception branch, so that "does not raise" is a statement about the model.
\<close>

definition resolve_dns :: "(str \<Rightarrow> exn + addrinfo list) \<Rightarrow> str \<Rightarrow> exn + str list" where
  "resolve_dns getaddrinfo hostname =
     (case getaddrinfo hostname of
        Inr infos \<Rightarrow> Inr (collect_ips infos [])
      | Inl e \<Rightarrow> Inr [])"

section \<open>PyBrowser\<close>

text \<open>
  A \<^verbatim>\<open>QUrl\<close> is held as the text it was built from; what Qt does to that text is the
  embedded view's business and is not modelled.
\<close>

datatype qurl = QUrl str

fun toString :: "qurl \<Rightarrow> str" where
  "toString (QUrl s) = s"

text \<open>
  The calls the controller makes on its collaborators, in program order: text written to
  the address field and to the status label, a call of \<open>resolve_dns\<close>, a load on the
  embedded view.
\<close>

datatype call =
  Address_setText str
| Status_setText str
| Resolve_dns str
| View_load qurl

text \<open>
  The controller's state: the texts of the address field, of the status label and of the
  window title, and the calls made so far. A widget is a cell that gives back the text
  last written to it; what Qt itself does to a text (a \<^verbatim>\<open>QLineEdit\<close> cuts it at its
  \<^verbatim>\<open>maxLength\<close>) belongs to the widget and is not modelled.
\<close>

record browser =
  address :: str
  status :: str
  title :: str
  calls :: "call list"

text \<open>
  The two library functions the controller depends on: \<^verbatim>\<open>urlparse(u).hostname\<close>, which
  raises, or gives \<^verbatim>\<open>None\<close> or a host name; and \<^verbatim>\<open>socket.getaddrinfo\<close>.
\<close>

record env =
  urlparse_hostname :: "str \<Rightarrow> exn + str option"
  getaddrinfo :: "str \<Rightarrow> exn + addrinfo list"

definition address_setText :: "str \<Rightarrow> browser \<Rightarrow> browser" where
  "address_setText t st = st\<lparr>address := t, calls := calls st @ [Address_setText t]\<rparr>"

definition status_setText :: "str \<Rightarrow> browser \<Rightarrow> browser" where
  "status_setText t st = st\<lparr>status := t, calls := calls st @ [Status_setText t]\<rparr>"

definition view_load :: "qurl \<Rightarrow> browser \<Rightarrow> browser" where
  "view_load u st = st\<lparr>calls := calls st @ [View_load u]\<rparr>"

definition called :: "call \<Rightarrow> browser \<Rightarrow> browser" where
  "called c st = st\<lparr>calls := calls st @ [c]\<rparr>"

text \<open>\<^verbatim>\<open>h or ""\<close> for \<^verbatim>\<open>h\<close> that is \<^verbatim>\<open>None\<close> or a string.\<close>

fun or_empty :: "str option \<Rightarrow> str" where
  "or_empty None = []"
| "or_empty (Some h) = (if h = [] then [] else h)"

text \<open>
  \<open>load_from_address\<close>. The \<^verbatim>\<open>try\<close> block is written out: each call that can raise
  hands its exception to the \<^verbatim>\<open>except Exception as e\<close> branch. The arrow of the status
  line is U+2192.
\<close>

definition load_from_address :: "env \<Rightarrow> browser \<Rightarrow> browser" where
  "load_from_address env st =
     (let url_text = normalize_url (address st);
          st' =
            (case urlparse_hostname env url_text of
               Inl e \<Rightarrow> status_setText (ascii ''DNS error: '' @ str_of e) st
             | Inr h \<Rightarrow>
                 let hostname = or_empty h in
                 (case resolve_dns (getaddrinfo env) hostname of
                    Inl e \<Rightarrow>
                      status_setText (ascii ''DNS error: '' @ str_of e)
                        (called (Resolve_dns hostname) st)
                  | Inr ips \<Rightarrow>
                      if ips \<noteq> [] then
                        status_setText
                          (ascii ''DNS: '' @ hostname @ ascii '' '' @ [0x2192] @ ascii '' '' @
                           join (ascii '', '') ips)
                          (called (Resolve_dns hostname) st)
                      else
                        status_setText
                          (ascii ''DNS: '' @ hostname @ ascii '' '' @ [0x2192] @
                           ascii '' (no result)'')
                          (called (Resolve_dns hostname) st)))
      in view_load (QUrl url_text) st')"

definition go_home :: "env \<Rightarrow> browser \<Rightarrow> browser" where
  "go_home env st = load_from_address env (address_setText (ascii ''https://example.com'') st)"

definition on_url_changed :: "qurl \<Rightarrow> browser \<Rightarrow> browser" where
  "on_url_changed qurl st = address_setText (toString qurl) st"

text \<open>
  \<^verbatim>\<open>PyBrowser.__init__\<close>: \<open>widgets_created\<close> is the state once the widgets exist and the
  signals are connected (window title "PyBrowser", status label "Ready", empty address
  field); the constructor then writes the start page to the address field and navigates.
\<close>

definition widgets_created :: browser where
  "widgets_created =
     \<lparr>address = [], status = ascii ''Ready'', title = ascii ''PyBrowser'', calls = []\<rparr>"

definition PyBrowser_init :: "env \<Rightarrow> browser" where
  "PyBrowser_init env =
     load_from_address env (address_setText (ascii ''https://example.com'') widgets_created)"

text \<open>
  The explicit navigation triggers and their wiring: the Go button and Return in the
  address field are connected to \<open>load_from_address\<close>, the Home button to \<open>go_home\<close>.
\<close>

datatype trigger = Go | Enter | Home

fun fire :: "trigger \<Rightarrow> env \<Rightarrow> browser \<Rightarrow> browser" where
  "fire Go env st = load_from_address env st"
| "fire Enter env st = load_from_address env st"
| "fire Home env st = go_home env st"

text \<open>The user edits the address field: its text changes, the controller is not called.\<close>

definition type_address :: "str \<Rightarrow> browser \<Rightarrow> browser" where
  "type_address t st = st\<lparr>address := t\<rparr>"

text \<open>The calls a handler adds to those already made.\<close>

definition calls_added :: "(browser \<Rightarrow> browser) \<Rightarrow> browser \<Rightarrow> call list" where
  "calls_added f st = drop (length (calls st)) (calls (f st))"

section \<open>The specification's wording\<close>

text \<open>
  Trimming, as the specification words it: \<open>s\<close> is \<open>l @ t @ r\<close> where \<open>l\<close> and \<open>r\<close>
  are the leading and trailing whitespace and \<open>t\<close>, the trimmed text, is empty or begins
  and ends with a character that is not whitespace.
\<close>

definition spec_trimmed :: "str \<Rightarrow> str \<Rightarrow> str \<Rightarrow> str \<Rightarrow> bool" where
  "spec_trimmed s l t r \<longleftrightarrow>
     s = l @ t @ r \<and> list_all isspace l \<and> list_all isspace r \<and>
     (t = [] \<or> (\<not> isspace (hd t) \<and> \<not> isspace (last t)))"

text \<open>
  Deduplication that preserves first-seen order, as the specification words it: an entry
  stays where it is seen first and its later occurrences go.
\<close>

fun spec_first_seen :: "'a list \<Rightarrow> 'a list" where
  "spec_first_seen [] = []"
| "spec_first_seen (x # xs) = x # filter (\<lambda>y. y \<noteq> x) (spec_first_seen xs)"

text \<open>
  The status text as the specification writes it: \<^verbatim>\<open>"<hostname> -> <ip1>, <ip2>, ..."\<close>,
  or \<^verbatim>\<open>"<hostname> -> (no result)"\<close> for an empty result.
\<close>

definition spec_status :: "str \<Rightarrow> str list \<Rightarrow> str" where
  "spec_status hostname ips =
     (if ips \<noteq> [] then hostname @ ascii '' -> '' @ join (ascii '', '') ips
      else hostname @ ascii '' -> (no result)'')"

section \<open>Sample collaborators\<close>

text \<open>
  A resolver that knows \<^verbatim>\<open>example.com\<close> (the IPv4 address comes twice, once per socket
  type, then one IPv6 address) and raises for every other name, and a URL parser that
  finds the host of \<^verbatim>\<open>http://example.com\<close> and of \<^verbatim>\<open>https://example.com\<close>, gives
  \<^verbatim>\<open>None\<close> for \<^verbatim>\<open>http://\<close> and raises otherwise.
\<close>

definition sample_getaddrinfo :: "str \<Rightarrow> exn + addrinfo list" where
  "sample_getaddrinfo hostname =
     (if hostname = ascii ''example.com'' then
        Inr [\<lparr>fam = 2, stype = 1, proto = 6, canon = [],
               sockaddr = Sockaddr_in (ascii ''93.184.216.34'') 0\<rparr>,
             \<lparr>fam = 2, stype = 2, proto = 17, canon = [],
               sockaddr = Sockaddr_in (ascii ''93.184.216.34'') 0\<rparr>,
             \<lparr>fam = 10, stype = 1, proto = 6, canon = [],
               sockaddr = Sockaddr_in6 (ascii ''2606:2800:220:1::1'') 0 0 0\<rparr>]
      else Inl (Exception (ascii ''[Errno -2] Name or service not known'')))"

definition sample_urlparse_hostname :: "str \<Rightarrow> exn + str option" where
  "sample_urlparse_hostname u =
     (if u = ascii ''http://example.com'' \<or> u = ascii ''https://example.com''
      then Inr (Some (ascii ''example.com''))
      else if u = ascii ''http://'' then Inr None
      else Inl (Exception (ascii ''Invalid IPv6 URL'')))"

definition sample_env :: env where
  "sample_env =
     \<lparr>urlparse_hostname = sample_urlparse_hostname, getaddrinfo = sample_getaddrinfo\<rparr>"

text \<open>An environment in which no name resolves.\<close>

definition offline_env :: env where
  "offline_env =
     \<lparr>urlparse_hostname = sample_urlparse_hostname,
      getaddrinfo = (\<lambda>hostname. Inl (Exception (ascii ''[Errno -3] Temporary failure in name resolution'')))\<rparr>"

section \<open>Trimming and substrings\<close>



lemma contains_iff: "contains sub s \<longleftrightarrow> (\<exists>p q. s = p @ sub @ q)"
proof -
  have "contains sub s \<longleftrightarrow> sublist sub s"
    by (induction s) (auto simp: sublist_Cons_right)
  then show ?thesis by (simp add: sublist_def)
qed

lemma strip_split:
  assumes "spec_trimmed s l t r" shows "strip s = t"
proof (cases "t = []")
  case True
  with assms have "\<forall>c\<in>set s. isspace c"
    by (auto simp: spec_trimmed_def list_all_iff)
  then show ?thesis using True by (auto simp: strip_def dest: set_dropWhileD)
next
  case False
  from assms False have s: "s = l @ t @ r" and l: "\<forall>c\<in>set l. isspace c" and r: "\<forall>c\<in>set r. isspace c"
    and h: "\<not> isspace (hd t)" and e: "\<not> isspace (last t)"
    by (auto simp: spec_trimmed_def list_all_iff)
  have "dropWhile isspace s = t @ r"
    using s l h False by (cases t) (simp_all add: dropWhile_append)
  moreover have "dropWhile isspace (rev r @ rev t) = rev t"
    using r e False by (cases "rev t") (simp_all add: dropWhile_append last_rev[symmetric] hd_rev del: last_rev)
  ultimately show ?thesis by (simp add: strip_def)
qed

lemma spec_trimmed_strip:
  "spec_trimmed s (takeWhile isspace s) (strip s) (rev (takeWhile isspace (rev (dropWhile isspace s))))"
proof -
  let ?d = "dropWhile isspace s"
  have 1: "s = takeWhile isspace s @ ?d" by simp
  have 2: "rev ?d = takeWhile isspace (rev ?d) @ dropWhile isspace (rev ?d)" by simp
  have "?d = rev (dropWhile isspace (rev ?d)) @ rev (takeWhile isspace (rev ?d))"
    using arg_cong[OF 2, of rev] by (simp del: takeWhile_dropWhile_id)
  then have 3: "?d = strip s @ rev (takeWhile isspace (rev ?d))" by (simp add: strip_def)
  have A: "s = takeWhile isspace s @ strip s @ rev (takeWhile isspace (rev ?d))"
    using 1 3 by metis
  have B: "list_all isspace (takeWhile isspace s)"
    by (auto simp: list_all_iff dest: set_takeWhileD)
  have C: "list_all isspace (rev (takeWhile isspace (rev ?d)))"
    by (auto simp: list_all_iff dest: set_takeWhileD)
  have D: "strip s = [] \<or> (\<not> isspace (hd (strip s)) \<and> \<not> isspace (last (strip s)))"
  proof (cases "strip s = []")
    case False
    then have ne: "dropWhile isspace (rev ?d) \<noteq> []" by (simp add: strip_def)
    then have "\<not> isspace (hd (dropWhile isspace (rev ?d)))" by (rule hd_dropWhile)
    then have l: "\<not> isspace (last (strip s))" using ne by (simp add: strip_def last_rev)
    have dne: "?d \<noteq> []"
    proof
      assume d: "?d = []"
      have "dropWhile isspace (rev ?d) = []" by (simp only: d rev.simps dropWhile.simps)
      with ne show False by contradiction
    qed
    then have hd: "\<not> isspace (hd ?d)" by (rule hd_dropWhile)
    have "hd ?d = hd (strip s)" using 3 False by (metis hd_append2)
    with hd l show ?thesis by simp
  qed simp
  show ?thesis unfolding spec_trimmed_def using A B C D by blast
qed

section \<open>Properties of normalize_url\<close>


lemma strip_id:
  assumes "t = [] \<or> (\<not> isspace (hd t) \<and> \<not> isspace (last t))"
  shows "strip t = t"
proof -
  have "spec_trimmed t [] t []" using assms by (simp add: spec_trimmed_def)
  then show ?thesis by (rule strip_split)
qed

lemma strip_ends:
  "strip s = [] \<or> (\<not> isspace (hd (strip s)) \<and> \<not> isspace (last (strip s)))"
  using spec_trimmed_strip [of s] by (simp add: spec_trimmed_def)

lemma http_eval: "ascii ''http://'' = [104, 116, 116, 112] @ ascii ''://''"
  by (simp add: ascii_def)

lemma fallback_eval: "ascii ''http://example.com'' = ascii ''http://'' @ ascii ''example.com''"
  by (simp add: ascii_def)

lemma contains_http: "contains (ascii ''://'') (ascii ''http://'' @ t)"
  unfolding contains_iff http_eval by (intro exI [of _ "[104, 116, 116, 112]"] exI [of _ t]) simp

lemma normalize_url_fix:
  assumes "u \<noteq> []" "\<not> isspace (hd u)" "\<not> isspace (last u)" "contains (ascii ''://'') u"
  shows "normalize_url u = u"
proof -
  have "strip u = u" using assms by (simp add: strip_id)
  then show ?thesis using assms by (simp add: normalize_url_def)
qed

lemma http_prefixed_ends:
  assumes "t = [] \<or> \<not> isspace (last t)"
  shows "ascii ''http://'' @ t \<noteq> []" "\<not> isspace (hd (ascii ''http://'' @ t))"
    "\<not> isspace (last (ascii ''http://'' @ t))"
proof -
  show "ascii ''http://'' @ t \<noteq> []" by (simp add: ascii_def)
  show "\<not> isspace (hd (ascii ''http://'' @ t))" by (simp add: ascii_def isspace_def)
  show "\<not> isspace (last (ascii ''http://'' @ t))"
    using assms by (cases "t = []") (simp_all add: ascii_def isspace_def)
qed

lemma normalize_url_shape:
  "normalize_url s \<noteq> [] \<and> \<not> isspace (hd (normalize_url s)) \<and>
   \<not> isspace (last (normalize_url s)) \<and> contains (ascii ''://'') (normalize_url s)"
proof (cases "strip s = []")
  case True
  then have "normalize_url s = ascii ''http://'' @ ascii ''example.com''"
    by (simp add: normalize_url_def fallback_eval)
  moreover have "\<not> isspace (last (ascii ''example.com''))" by (simp add: ascii_def isspace_def)
  ultimately show ?thesis using http_prefixed_ends [of "ascii ''example.com''"] contains_http
    by simp
next
  case False
  with strip_ends [of s] have e: "\<not> isspace (hd (strip s))" "\<not> isspace (last (strip s))" by auto
  show ?thesis
  proof (cases "contains (ascii ''://'') (strip s)")
    case True
    then have "normalize_url s = strip s" using False by (simp add: normalize_url_def)
    then show ?thesis using False e True by simp
  next
    case c: False
    then have "normalize_url s = ascii ''http://'' @ strip s"
      using False by (simp add: normalize_url_def)
    then show ?thesis using http_prefixed_ends [of "strip s"] e contains_http by simp
  qed
qed

lemma normalize_url_trimmed:
  assumes "spec_trimmed s l t r"
  shows "normalize_url s =
     (if t = [] then ascii ''http://example.com''
      else if \<not> (\<exists>p q. t = p @ ascii ''://'' @ q) then ascii ''http://'' @ t
      else t)"
  using strip_split [OF assms] by (simp add: normalize_url_def contains_iff)

text \<open>
  C4. For every input \<open>s\<close>, with \<open>t\<close> the text of \<open>s\<close> between its leading and its
  trailing whitespace (such a split exists, and every such split gives the same result):
  \<open>normalize_url s\<close> is the fallback URL \<^verbatim>\<open>http://example.com\<close> if \<open>t\<close> is empty,
  \<^verbatim>\<open>http://\<close> followed by \<open>t\<close> if \<^verbatim>\<open>://\<close> occurs nowhere in \<open>t\<close>, and \<open>t\<close> itself
  otherwise. The empty text and three blanks give the fallback URL, and
  \<^verbatim>\<open>example.com\<close> gives \<^verbatim>\<open>http://example.com\<close>.
\<close>

theorem normalize_url_cases:
  "(\<exists>l t r. spec_trimmed s l t r) \<and>
   (\<forall>l t r. spec_trimmed s l t r \<longrightarrow>
      normalize_url s =
        (if t = [] then ascii ''http://example.com''
         else if \<not> (\<exists>p q. t = p @ ascii ''://'' @ q) then ascii ''http://'' @ t
         else t)) \<and>
   normalize_url (ascii '''') = ascii ''http://example.com'' \<and>
   normalize_url (ascii ''   '') = ascii ''http://example.com'' \<and>
   normalize_url (ascii ''example.com'') = ascii ''http://example.com''"
proof (intro conjI allI impI)
  show "\<exists>l t r. spec_trimmed s l t r" using spec_trimmed_strip by blast
  show "normalize_url s =
        (if t = [] then ascii ''http://example.com''
         else if \<not> (\<exists>p q. t = p @ ascii ''://'' @ q) then ascii ''http://'' @ t
         else t)" if "spec_trimmed s l t r" for l t r
    using that by (rule normalize_url_trimmed)
  show "normalize_url (ascii '''') = ascii ''http://example.com''"
    by (simp add: normalize_url_def strip_def ascii_def)
  show "normalize_url (ascii ''   '') = ascii ''http://example.com''"
    by (simp add: normalize_url_def strip_def ascii_def isspace_def)
  show "normalize_url (ascii ''example.com'') = ascii ''http://example.com''"
    by (simp add: normalize_url_def strip_def ascii_def isspace_def)
qed

text \<open>
  C4 at an input with blanks on both sides and the separator twice, once in mid-string:
  the text comes back trimmed and without a second prefix.
\<close>

theorem normalize_url_cases_witness:
  "spec_trimmed (ascii '' ftp://a/?next=b://c  '') (ascii '' '') (ascii ''ftp://a/?next=b://c'')
     (ascii ''  '') \<and>
   normalize_url (ascii '' ftp://a/?next=b://c  '') = ascii ''ftp://a/?next=b://c''"
proof -
  have t: "spec_trimmed (ascii '' ftp://a/?next=b://c  '') (ascii '' '')
     (ascii ''ftp://a/?next=b://c'') (ascii ''  '')"
    by (simp add: spec_trimmed_def ascii_def isspace_def)
  have c: "\<exists>p q. ascii ''ftp://a/?next=b://c'' = p @ ascii ''://'' @ q"
    unfolding contains_iff [symmetric] by (simp add: ascii_def)
  have n: "ascii ''ftp://a/?next=b://c'' \<noteq> []" by (simp add: ascii_def)
  from normalize_url_cases [of "ascii '' ftp://a/?next=b://c  ''"] t
  have "normalize_url (ascii '' ftp://a/?next=b://c  '') =
        (if ascii ''ftp://a/?next=b://c'' = [] then ascii ''http://example.com''
         else if \<not> (\<exists>p q. ascii ''ftp://a/?next=b://c'' = p @ ascii ''://'' @ q)
           then ascii ''http://'' @ ascii ''ftp://a/?next=b://c''
         else ascii ''ftp://a/?next=b://c'')"
    by blast
  with c n t show ?thesis by simp
qed

text \<open>
  C5. For every input \<open>s\<close>, \<open>normalize_url s\<close> is not empty and contains the scheme
  separator \<^verbatim>\<open>://\<close>.
\<close>

theorem normalize_url_has_scheme:
  "normalize_url s \<noteq> [] \<and> contains (ascii ''://'') (normalize_url s) \<and>
   (\<exists>p q. normalize_url s = p @ ascii ''://'' @ q)"
  using normalize_url_shape [of s] by (simp add: contains_iff)

text \<open>C5 at an input whose own colon and slashes are apart.\<close>

theorem normalize_url_has_scheme_witness:
  "normalize_url (ascii '' : / / '') = ascii ''http://: / /'' \<and>
   contains (ascii ''://'') (normalize_url (ascii '' : / / ''))"
proof -
  have "normalize_url (ascii '' : / / '') = ascii ''http://: / /''"
    by (simp add: normalize_url_def strip_def ascii_def isspace_def)
  then show ?thesis using normalize_url_has_scheme [of "ascii '' : / / ''"] by simp
qed

text \<open>
  C6. \<open>normalize_url\<close> is idempotent, and \<^verbatim>\<open>https://example.com\<close> is returned as it
  is.
\<close>

theorem normalize_url_idempotent:
  "normalize_url (normalize_url s) = normalize_url s \<and>
   normalize_url (ascii ''https://example.com'') = ascii ''https://example.com''"
proof
  show "normalize_url (normalize_url s) = normalize_url s"
    using normalize_url_shape [of s] by (simp add: normalize_url_fix)
  show "normalize_url (ascii ''https://example.com'') = ascii ''https://example.com''"
    by (simp add: normalize_url_def strip_def ascii_def isspace_def)
qed

text \<open>C6 at an input with blanks around it and a blank inside.\<close>

theorem normalize_url_idempotent_witness:
  "normalize_url (ascii ''  example.com/a b  '') = ascii ''http://example.com/a b'' \<and>
   normalize_url (ascii ''http://example.com/a b'') = ascii ''http://example.com/a b''"
proof -
  have "normalize_url (ascii ''  example.com/a b  '') = ascii ''http://example.com/a b''"
    by (simp add: normalize_url_def strip_def ascii_def isspace_def)
  then show ?thesis using normalize_url_idempotent [of "ascii ''  example.com/a b  ''"] by simp
qed

section \<open>Properties of resolve_dns\<close>

lemma set_spec_first_seen: "set (spec_first_seen xs) = set xs"
  by (induction xs) auto

lemma distinct_spec_first_seen: "distinct (spec_first_seen xs)"
  by (induction xs) (auto simp: set_spec_first_seen)

lemma remdups_snoc: "remdups (ys @ [x]) = filter (\<lambda>y. y \<noteq> x) (remdups ys) @ [x]"
  by (induction ys) auto

lemma spec_first_seen_remdups: "spec_first_seen xs = rev (remdups (rev xs))"
  by (induction xs) (simp_all add: remdups_snoc rev_filter)

lemma collect_ips_first_seen:
  "collect_ips infos ips =
     ips @ filter (\<lambda>y. y \<notin> set ips) (spec_first_seen (map (\<lambda>i. sockaddr0 (sockaddr i)) infos))"
proof (induction infos arbitrary: ips)
  case Nil
  show ?case by simp
next
  case (Cons info infos)
  let ?ip = "sockaddr0 (sockaddr info)"
  let ?fs = "spec_first_seen (map (\<lambda>i. sockaddr0 (sockaddr i)) infos)"
  show ?case
  proof (cases "?ip \<in> set ips")
    case True
    have "filter (\<lambda>y. y \<notin> set ips) (filter (\<lambda>y. y \<noteq> ?ip) ?fs) = filter (\<lambda>y. y \<notin> set ips) ?fs"
      using True by (auto intro: filter_cong)
    then show ?thesis using True Cons.IH [of ips] by (simp add: Let_def)
  next
    case False
    have "filter (\<lambda>y. y \<notin> set (ips @ [?ip])) ?fs = filter (\<lambda>y. y \<notin> set ips) (filter (\<lambda>y. y \<noteq> ?ip) ?fs)"
      by (auto intro: filter_cong)
    then show ?thesis using False Cons.IH [of "ips @ [?ip]"] by (simp add: Let_def)
  qed
qed

lemma collect_ips_Nil:
  "collect_ips infos [] = spec_first_seen (map (\<lambda>i. sockaddr0 (sockaddr i)) infos)"
  by (simp add: collect_ips_first_seen)

lemma resolve_dns_total: "\<exists>ips. resolve_dns g h = Inr ips"
  by (simp add: resolve_dns_def split: sum.split)

text \<open>
  C2. For every host name and every behaviour of the system resolver, \<open>resolve_dns\<close>
  returns a list and raises nothing; when the resolver raises, the list is empty.
\<close>

theorem resolve_dns_never_raises:
  "(\<exists>ips. resolve_dns g hostname = Inr ips) \<and>
   (\<forall>e. g hostname = Inl e \<longrightarrow> resolve_dns g hostname = Inr [])"
  by (simp add: resolve_dns_def split: sum.split)

text \<open>C2 at a name the sample resolver does not know.\<close>

theorem resolve_dns_never_raises_witness:
  "sample_getaddrinfo (ascii ''no.such.host'') =
     Inl (Exception (ascii ''[Errno -2] Name or service not known'')) \<and>
   resolve_dns sample_getaddrinfo (ascii ''no.such.host'') = Inr []"
proof -
  have "sample_getaddrinfo (ascii ''no.such.host'') =
     Inl (Exception (ascii ''[Errno -2] Name or service not known''))"
    by (simp add: sample_getaddrinfo_def ascii_def)
  then show ?thesis
    using resolve_dns_never_raises [of sample_getaddrinfo "ascii ''no.such.host''"] by simp
qed

text \<open>
  C3. When the system resolver returns the records \<open>infos\<close>, the list \<open>resolve_dns\<close>
  returns has no duplicates, its entries are exactly the addresses \<^verbatim>\<open>sockaddr[0]\<close> of
  the records, and they stand in first-seen order: the list is the address list with every
  later occurrence of an address removed.
\<close>

theorem resolve_dns_first_seen:
  assumes "g hostname = Inr infos"
  shows "\<exists>ips. resolve_dns g hostname = Inr ips \<and> distinct ips \<and>
           set ips = (\<lambda>i. sockaddr0 (sockaddr i)) ` set infos \<and>
           ips = spec_first_seen (map (\<lambda>i. sockaddr0 (sockaddr i)) infos) \<and>
           ips = rev (remdups (rev (map (\<lambda>i. sockaddr0 (sockaddr i)) infos)))"
proof -
  let ?a = "map (\<lambda>i. sockaddr0 (sockaddr i)) infos"
  have r: "resolve_dns g hostname = Inr (spec_first_seen ?a)"
    using assms by (simp add: resolve_dns_def collect_ips_Nil)
  have "distinct (spec_first_seen ?a)" by (rule distinct_spec_first_seen)
  moreover have "set (spec_first_seen ?a) = (\<lambda>i. sockaddr0 (sockaddr i)) ` set infos"
    by (simp add: set_spec_first_seen)
  moreover have "spec_first_seen ?a = rev (remdups (rev ?a))" by (rule spec_first_seen_remdups)
  ultimately show ?thesis using r by simp
qed

text \<open>
  C3 at \<^verbatim>\<open>example.com\<close>: three records, the first two with the same address.
\<close>

theorem resolve_dns_first_seen_witness:
  "resolve_dns sample_getaddrinfo (ascii ''example.com'') =
     Inr [ascii ''93.184.216.34'', ascii ''2606:2800:220:1::1'']"
proof -
  have g: "sample_getaddrinfo (ascii ''example.com'') =
     Inr [\<lparr>fam = 2, stype = 1, proto = 6, canon = [],
            sockaddr = Sockaddr_in (ascii ''93.184.216.34'') 0\<rparr>,
          \<lparr>fam = 2, stype = 2, proto = 17, canon = [],
            sockaddr = Sockaddr_in (ascii ''93.184.216.34'') 0\<rparr>,
          \<lparr>fam = 10, stype = 1, proto = 6, canon = [],
            sockaddr = Sockaddr_in6 (ascii ''2606:2800:220:1::1'') 0 0 0\<rparr>]"
    by (simp add: sample_getaddrinfo_def)
  show ?thesis using resolve_dns_first_seen [of sample_getaddrinfo "ascii ''example.com''", OF g]
    by (simp add: ascii_def)
qed

section \<open>Properties of the controller\<close>

lemma load_from_address_raise:
  assumes "urlparse_hostname env (normalize_url (address st)) = Inl e"
  shows "load_from_address env st =
     st\<lparr>status := ascii ''DNS error: '' @ str_of e,
        calls := calls st @ [Status_setText (ascii ''DNS error: '' @ str_of e),
                             View_load (QUrl (normalize_url (address st)))]\<rparr>"
  using assms by (simp add: load_from_address_def status_setText_def view_load_def)

lemma load_from_address_parsed:
  assumes "urlparse_hostname env (normalize_url (address st)) = Inr ho"
    and "resolve_dns (getaddrinfo env) (or_empty ho) = Inr ips"
    and "line = ascii ''DNS: '' @ or_empty ho @ ascii '' '' @ [0x2192] @ ascii '' '' @
                (if ips = [] then ascii ''(no result)'' else join (ascii '', '') ips)"
  shows "load_from_address env st =
     st\<lparr>status := line,
        calls := calls st @ [Resolve_dns (or_empty ho), Status_setText line,
                             View_load (QUrl (normalize_url (address st)))]\<rparr>"
proof -
  have b: "ascii '' (no result)'' = ascii '' '' @ ascii ''(no result)''"
    by (simp add: ascii_def)
  show ?thesis
    using assms
    by (simp add: load_from_address_def status_setText_def view_load_def called_def b Let_def
        del: or_empty.simps)
qed

lemma load_from_address_calls:
  "load_from_address env (st\<lparr>calls := cs\<rparr>) =
     (load_from_address env st)\<lparr>calls := cs @ calls_added (load_from_address env) st\<rparr>"
proof (cases "urlparse_hostname env (normalize_url (address st))")
  case (Inl e)
  then show ?thesis
    using load_from_address_raise [of env st e] load_from_address_raise [of env "st\<lparr>calls := cs\<rparr>" e]
    by (simp add: calls_added_def)
next
  case (Inr ho)
  obtain ips where r: "resolve_dns (getaddrinfo env) (or_empty ho) = Inr ips"
    using resolve_dns_total by blast
  show ?thesis
    using load_from_address_parsed [OF _ r refl, of st] load_from_address_parsed [OF _ r refl, of "st\<lparr>calls := cs\<rparr>"] Inr
    by (simp add: calls_added_def)
qed

text \<open>
  C1, amended. For every explicit navigation trigger (Go, Enter, Home), with \<open>text\<close> the
  address text the navigation reads (the home URL for Home): if the normalized text parses
  to the host name \<open>h\<close> (\<^verbatim>\<open>None\<close> counting as the empty name) and resolution of \<open>h\<close>
  returns \<open>ips\<close>, the status is set to \<^verbatim>\<open>DNS: <h> \<rightarrow> <ip1>, <ip2>, ...\<close>, or to
  \<^verbatim>\<open>DNS: <h> \<rightarrow> (no result)\<close> when \<open>ips\<close> is empty, with the arrow U+2192, and the
  controller's calls are, in this order: resolution of \<open>h\<close>, the status update, the load of
  the normalized URL on the view (after the write of the home URL to the address field, for
  Home). For the text \<^verbatim>\<open>example.com\<close> with host name \<^verbatim>\<open>example.com\<close> the view is
  asked to load \<^verbatim>\<open>http://example.com\<close> and the status begins
  \<^verbatim>\<open>DNS: example.com \<rightarrow>\<close>.
\<close>

theorem navigation_status_and_load:
  assumes "text = (case trig of Home \<Rightarrow> ascii ''https://example.com'' | _ \<Rightarrow> address st)"
    and "urlparse_hostname env (normalize_url text) = Inr ho"
    and "resolve_dns (getaddrinfo env) (or_empty ho) = Inr ips"
  shows "status (fire trig env st) =
           ascii ''DNS: '' @ or_empty ho @ ascii '' '' @ [0x2192] @ ascii '' '' @
           (if ips = [] then ascii ''(no result)'' else join (ascii '', '') ips) \<and>
         calls_added (fire trig env) st =
           (case trig of Home \<Rightarrow> [Address_setText text] | _ \<Rightarrow> []) @
           [Resolve_dns (or_empty ho), Status_setText (status (fire trig env st)),
            View_load (QUrl (normalize_url text))] \<and>
         (text = ascii ''example.com'' \<and> ho = Some (ascii ''example.com'') \<longrightarrow>
            last (calls (fire trig env st)) = View_load (QUrl (ascii ''http://example.com'')) \<and>
            status (fire trig env st) =
              ascii ''DNS: example.com '' @ [0x2192] @ ascii '' '' @
              (if ips = [] then ascii ''(no result)'' else join (ascii '', '') ips))"
proof -
  define st0 where "st0 = (case trig of Home \<Rightarrow> address_setText text st | _ \<Rightarrow> st)"
  have f: "fire trig env st = load_from_address env st0"
    using assms(1) by (cases trig) (simp_all add: st0_def go_home_def)
  have a: "address st0 = text"
    using assms(1) by (cases trig) (simp_all add: st0_def address_setText_def)
  have c: "calls st0 = calls st @ (case trig of Home \<Rightarrow> [Address_setText text] | _ \<Rightarrow> [])"
    by (cases trig) (simp_all add: st0_def address_setText_def)
  define line where "line = ascii ''DNS: '' @ or_empty ho @ ascii '' '' @ [0x2192] @ ascii '' '' @
                (if ips = [] then ascii ''(no result)'' else join (ascii '', '') ips)"
  have u: "urlparse_hostname env (normalize_url (address st0)) = Inr ho"
    using assms(2) a by simp
  have p: "fire trig env st =
     st0\<lparr>status := line,
        calls := calls st0 @ [Resolve_dns (or_empty ho), Status_setText line,
                             View_load (QUrl (normalize_url text))]\<rparr>"
    unfolding f using load_from_address_parsed [OF u assms(3) line_def] a by simp
  have s: "status (fire trig env st) = line" unfolding p by simp
  have cl: "calls (fire trig env st) =
     calls st @ (case trig of Home \<Rightarrow> [Address_setText text] | _ \<Rightarrow> []) @
       [Resolve_dns (or_empty ho), Status_setText line, View_load (QUrl (normalize_url text))]"
    unfolding p using c by simp
  have n: "normalize_url (ascii ''example.com'') = ascii ''http://example.com''"
    by (simp add: normalize_url_def strip_def ascii_def isspace_def)
  have d: "ascii ''DNS: example.com '' = ascii ''DNS: '' @ ascii ''example.com'' @ ascii '' ''"
    by (simp add: ascii_def)
  have 1: "status (fire trig env st) =
           ascii ''DNS: '' @ or_empty ho @ ascii '' '' @ [0x2192] @ ascii '' '' @
           (if ips = [] then ascii ''(no result)'' else join (ascii '', '') ips)"
    using s by (simp only: line_def)
  have 2: "calls_added (fire trig env) st =
           (case trig of Home \<Rightarrow> [Address_setText text] | _ \<Rightarrow> []) @
           [Resolve_dns (or_empty ho), Status_setText (status (fire trig env st)),
            View_load (QUrl (normalize_url text))]"
    unfolding calls_added_def s cl by simp
  have 3: "last (calls (fire trig env st)) = View_load (QUrl (ascii ''http://example.com''))"
    if "text = ascii ''example.com''"
    unfolding cl using that n by simp
  have 4: "status (fire trig env st) =
              ascii ''DNS: example.com '' @ [0x2192] @ ascii '' '' @
              (if ips = [] then ascii ''(no result)'' else join (ascii '', '') ips)"
    if "ho = Some (ascii ''example.com'')"
    unfolding 1 d using that by (simp add: ascii_def)
  show ?thesis using 1 2 3 4 by blast
qed

lemma normalize_url_example_com:
  "normalize_url (ascii ''example.com'') = ascii ''http://example.com''"
  by (simp add: normalize_url_def strip_def ascii_def isspace_def)

lemma normalize_url_home:
  "normalize_url (ascii ''https://example.com'') = ascii ''https://example.com''"
  by (simp add: normalize_url_def strip_def ascii_def isspace_def)

lemma sample_resolve:
  "resolve_dns (getaddrinfo sample_env) (ascii ''example.com'') =
     Inr [ascii ''93.184.216.34'', ascii ''2606:2800:220:1::1'']"
  by (simp add: resolve_dns_def sample_env_def sample_getaddrinfo_def) (simp add: ascii_def)

lemma offline_resolve: "resolve_dns (getaddrinfo offline_env) h = Inr []"
  by (simp add: resolve_dns_def offline_env_def)

lemma sample_parse:
  "urlparse_hostname sample_env (ascii ''http://example.com'') = Inr (Some (ascii ''example.com''))"
  "urlparse_hostname offline_env (ascii ''http://example.com'') = Inr (Some (ascii ''example.com''))"
  "urlparse_hostname sample_env (ascii ''https://example.com'') = Inr (Some (ascii ''example.com''))"
  by (simp_all add: sample_env_def offline_env_def sample_urlparse_hostname_def)

lemma sample_parse_raise:
  "urlparse_hostname sample_env (ascii ''http://[::1'') = Inl (Exception (ascii ''Invalid IPv6 URL''))"
  by (simp add: sample_env_def sample_urlparse_hostname_def) (simp add: ascii_def)

lemma typed_state:
  "address (type_address t widgets_created) = t" "calls (type_address t widgets_created) = []"
  "status (type_address t widgets_created) = ascii ''Ready''"
  by (simp_all add: type_address_def widgets_created_def)

text \<open>C1, amended, at \<^verbatim>\<open>example.com\<close> typed and Return pressed.\<close>

theorem navigation_status_and_load_witness:
  "urlparse_hostname sample_env (normalize_url (ascii ''example.com'')) =
     Inr (Some (ascii ''example.com'')) \<and>
   resolve_dns (getaddrinfo sample_env) (ascii ''example.com'') =
     Inr [ascii ''93.184.216.34'', ascii ''2606:2800:220:1::1''] \<and>
   status (fire Enter sample_env (type_address (ascii ''example.com'') widgets_created)) =
     ascii ''DNS: example.com '' @ [0x2192] @ ascii '' 93.184.216.34, 2606:2800:220:1::1'' \<and>
   last (calls (fire Enter sample_env (type_address (ascii ''example.com'') widgets_created))) =
     View_load (QUrl (ascii ''http://example.com''))"
proof -
  let ?st = "type_address (ascii ''example.com'') widgets_created"
  have t: "ascii ''example.com'' = (case Enter of Home \<Rightarrow> ascii ''https://example.com'' | _ \<Rightarrow> address ?st)"
    by (simp add: typed_state)
  have u: "urlparse_hostname sample_env (normalize_url (ascii ''example.com'')) =
     Inr (Some (ascii ''example.com''))"
    by (simp add: normalize_url_example_com sample_parse)
  have r: "resolve_dns (getaddrinfo sample_env) (or_empty (Some (ascii ''example.com''))) =
     Inr [ascii ''93.184.216.34'', ascii ''2606:2800:220:1::1'']"
    using sample_resolve by simp
  have j: "ascii '' '' @ join (ascii '', '') [ascii ''93.184.216.34'', ascii ''2606:2800:220:1::1''] =
     ascii '' 93.184.216.34, 2606:2800:220:1::1''"
    by (simp add: ascii_def)
  have "status (fire Enter sample_env ?st) =
          ascii ''DNS: example.com '' @ [0x2192] @ ascii '' '' @
          join (ascii '', '') [ascii ''93.184.216.34'', ascii ''2606:2800:220:1::1''] \<and>
        last (calls (fire Enter sample_env ?st)) = View_load (QUrl (ascii ''http://example.com''))"
    using navigation_status_and_load [OF t u r] by (simp add: ascii_def)
  then show ?thesis using j u sample_resolve by simp
qed

text \<open>
  C1 as the specification states it fails: with \<^verbatim>\<open>example.com\<close> typed and Go
  activated, the status is not \<^verbatim>\<open>example.com -> ...\<close>, neither when the name resolves
  nor when it does not; the status text does not even contain \<^verbatim>\<open> -> \<close>.
\<close>

theorem spec_status_counterexample:
  "urlparse_hostname sample_env (normalize_url (ascii ''example.com'')) =
     Inr (Some (ascii ''example.com'')) \<and>
   resolve_dns (getaddrinfo sample_env) (ascii ''example.com'') =
     Inr [ascii ''93.184.216.34'', ascii ''2606:2800:220:1::1''] \<and>
   status (fire Go sample_env (type_address (ascii ''example.com'') widgets_created)) \<noteq>
     spec_status (ascii ''example.com'') [ascii ''93.184.216.34'', ascii ''2606:2800:220:1::1''] \<and>
   \<not> contains (ascii '' -> '')
     (status (fire Go sample_env (type_address (ascii ''example.com'') widgets_created))) \<and>
   resolve_dns (getaddrinfo offline_env) (ascii ''example.com'') = Inr [] \<and>
   status (fire Go offline_env (type_address (ascii ''example.com'') widgets_created)) \<noteq>
     spec_status (ascii ''example.com'') []"
proof -
  let ?st = "type_address (ascii ''example.com'') widgets_created"
  have u: "urlparse_hostname sample_env (normalize_url (address ?st)) = Inr (Some (ascii ''example.com''))"
    by (simp add: typed_state normalize_url_example_com sample_parse)
  have u': "urlparse_hostname offline_env (normalize_url (address ?st)) = Inr (Some (ascii ''example.com''))"
    by (simp add: typed_state normalize_url_example_com sample_parse)
  have r: "resolve_dns (getaddrinfo sample_env) (or_empty (Some (ascii ''example.com''))) =
     Inr [ascii ''93.184.216.34'', ascii ''2606:2800:220:1::1'']"
    using sample_resolve by simp
  have r': "resolve_dns (getaddrinfo offline_env) (or_empty (Some (ascii ''example.com''))) = Inr []"
    by (rule offline_resolve)
  have s: "status (fire Go sample_env ?st) =
     ascii ''DNS: example.com '' @ [0x2192] @ ascii '' 93.184.216.34, 2606:2800:220:1::1''"
    using load_from_address_parsed [OF u r refl] by (simp add: ascii_def)
  have s': "status (fire Go offline_env ?st) =
     ascii ''DNS: example.com '' @ [0x2192] @ ascii '' (no result)''"
    using load_from_address_parsed [OF u' r' refl] by (simp add: ascii_def)
  have 1: "status (fire Go sample_env ?st) \<noteq>
     spec_status (ascii ''example.com'') [ascii ''93.184.216.34'', ascii ''2606:2800:220:1::1'']"
    unfolding s by (simp add: spec_status_def ascii_def)
  have 2: "\<not> contains (ascii '' -> '') (status (fire Go sample_env ?st))"
    unfolding s by (simp add: ascii_def)
  have 3: "status (fire Go offline_env ?st) \<noteq> spec_status (ascii ''example.com'') []"
    unfolding s' by (simp add: spec_status_def ascii_def)
  show ?thesis using u 1 2 3 sample_resolve offline_resolve by (simp add: typed_state)
qed

lemma contains_suffix: "contains sub (p @ sub)"
  unfolding contains_iff by (intro exI [of _ p] exI [of _ "[]"]) simp

lemma load_from_address_ends_with_load:
  "\<exists>cs. calls (load_from_address env st) =
          calls st @ cs @ [View_load (QUrl (normalize_url (address st)))]"
proof (cases "urlparse_hostname env (normalize_url (address st))")
  case (Inl e)
  show ?thesis unfolding load_from_address_raise [OF Inl] by simp
next
  case (Inr ho)
  obtain ips where r: "resolve_dns (getaddrinfo env) (or_empty ho) = Inr ips"
    using resolve_dns_total by blast
  show ?thesis unfolding load_from_address_parsed [OF Inr r refl] by simp
qed

lemma load_from_address_keeps:
  "address (load_from_address env st) = address st \<and> title (load_from_address env st) = title st"
proof (cases "urlparse_hostname env (normalize_url (address st))")
  case (Inl e)
  show ?thesis unfolding load_from_address_raise [OF Inl] by simp
next
  case (Inr ho)
  obtain ips where r: "resolve_dns (getaddrinfo env) (or_empty ho) = Inr ips"
    using resolve_dns_total by blast
  show ?thesis unfolding load_from_address_parsed [OF Inr r refl] by simp
qed

lemma load_from_address_sets_status:
  "\<exists>cs line. calls (load_from_address env st) =
       calls st @ cs @ [Status_setText line, View_load (QUrl (normalize_url (address st)))] \<and>
     status (load_from_address env st) = line \<and> (cs = [] \<or> (\<exists>h. cs = [Resolve_dns h]))"
proof (cases "urlparse_hostname env (normalize_url (address st))")
  case (Inl e)
  show ?thesis unfolding load_from_address_raise [OF Inl] by simp
next
  case (Inr ho)
  obtain ips where r: "resolve_dns (getaddrinfo env) (or_empty ho) = Inr ips"
    using resolve_dns_total by blast
  show ?thesis unfolding load_from_address_parsed [OF Inr r refl]
    by (intro exI [of _ "[Resolve_dns (or_empty ho)]"] exI) simp
qed

lemma fire_load:
  "fire trig env st =
     load_from_address env
       (case trig of Home \<Rightarrow> address_setText (ascii ''https://example.com'') st | _ \<Rightarrow> st)"
  by (cases trig) (simp_all add: go_home_def)

text \<open>
  C7. For every navigation attempt, the last call is the load of the normalized URL on the
  view, whatever parsing and resolution did; and when parsing the normalized URL raises
  \<open>e\<close>, the status is \<^verbatim>\<open>DNS error: \<close> followed by the text of \<open>e\<close>, and the calls are
  that status update and the load.
\<close>

theorem parse_error_still_loads:
  assumes "text = (case trig of Home \<Rightarrow> ascii ''https://example.com'' | _ \<Rightarrow> address st)"
  shows "(\<exists>cs. calls (fire trig env st) = calls st @ cs @ [View_load (QUrl (normalize_url text))]) \<and>
         (\<forall>e. urlparse_hostname env (normalize_url text) = Inl e \<longrightarrow>
            status (fire trig env st) = ascii ''DNS error: '' @ str_of e \<and>
            contains (str_of e) (status (fire trig env st)) \<and>
            calls_added (fire trig env) st =
              (case trig of Home \<Rightarrow> [Address_setText text] | _ \<Rightarrow> []) @
              [Status_setText (ascii ''DNS error: '' @ str_of e),
               View_load (QUrl (normalize_url text))])"
proof -
  define st0 where
    "st0 = (case trig of Home \<Rightarrow> address_setText (ascii ''https://example.com'') st | _ \<Rightarrow> st)"
  have f: "fire trig env st = load_from_address env st0"
    unfolding st0_def by (rule fire_load)
  have a: "address st0 = text"
    using assms by (cases trig) (simp_all add: st0_def address_setText_def)
  have c: "calls st0 = calls st @ (case trig of Home \<Rightarrow> [Address_setText text] | _ \<Rightarrow> [])"
    using assms by (cases trig) (simp_all add: st0_def address_setText_def)
  obtain cs where "calls (load_from_address env st0) =
      calls st0 @ cs @ [View_load (QUrl (normalize_url (address st0)))]"
    using load_from_address_ends_with_load by blast
  then have "calls (fire trig env st) =
      calls st @ ((case trig of Home \<Rightarrow> [Address_setText text] | _ \<Rightarrow> []) @ cs) @
      [View_load (QUrl (normalize_url text))]"
    using f a c by simp
  then have 1: "\<exists>cs. calls (fire trig env st) =
      calls st @ cs @ [View_load (QUrl (normalize_url text))]" by blast
  have 2: "status (fire trig env st) = ascii ''DNS error: '' @ str_of e \<and>
            contains (str_of e) (status (fire trig env st)) \<and>
            calls_added (fire trig env) st =
              (case trig of Home \<Rightarrow> [Address_setText text] | _ \<Rightarrow> []) @
              [Status_setText (ascii ''DNS error: '' @ str_of e),
               View_load (QUrl (normalize_url text))]"
    if "urlparse_hostname env (normalize_url text) = Inl e" for e
  proof -
    have u: "urlparse_hostname env (normalize_url (address st0)) = Inl e"
      using that a by simp
    show ?thesis
      unfolding f load_from_address_raise [OF u] calls_added_def
      using a c by (simp add: contains_suffix)
  qed
  show ?thesis using 1 2 by blast
qed

text \<open>C7 at a URL with an unclosed bracket, which the sample parser rejects.\<close>

theorem parse_error_still_loads_witness:
  "urlparse_hostname sample_env (normalize_url (ascii ''http://[::1'')) =
     Inl (Exception (ascii ''Invalid IPv6 URL'')) \<and>
   status (fire Go sample_env (type_address (ascii ''http://[::1'') widgets_created)) =
     ascii ''DNS error: Invalid IPv6 URL'' \<and>
   calls (fire Go sample_env (type_address (ascii ''http://[::1'') widgets_created)) =
     [Status_setText (ascii ''DNS error: Invalid IPv6 URL''),
      View_load (QUrl (ascii ''http://[::1''))]"
proof -
  let ?st = "type_address (ascii ''http://[::1'') widgets_created"
  have n: "normalize_url (ascii ''http://[::1'') = ascii ''http://[::1''"
    by (simp add: normalize_url_def strip_def ascii_def isspace_def)
  have t: "ascii ''http://[::1'' = (case Go of Home \<Rightarrow> ascii ''https://example.com'' | _ \<Rightarrow> address ?st)"
    by (simp add: typed_state)
  have u: "urlparse_hostname sample_env (normalize_url (ascii ''http://[::1'')) =
     Inl (Exception (ascii ''Invalid IPv6 URL''))"
    by (simp add: n sample_parse_raise)
  have m: "ascii ''DNS error: '' @ ascii ''Invalid IPv6 URL'' = ascii ''DNS error: Invalid IPv6 URL''"
    by (simp add: ascii_def)
  have "status (fire Go sample_env ?st) = ascii ''DNS error: '' @ ascii ''Invalid IPv6 URL'' \<and>
        calls_added (fire Go sample_env) ?st =
          [Status_setText (ascii ''DNS error: '' @ ascii ''Invalid IPv6 URL''),
           View_load (QUrl (normalize_url (ascii ''http://[::1'')))]"
    using parse_error_still_loads [OF t, of sample_env] u by simp
  then show ?thesis using u n m by (simp add: calls_added_def typed_state)
qed

text \<open>
  C8. Handling \<^verbatim>\<open>urlChanged(qurl)\<close> sets the address field to the string form of
  \<open>qurl\<close> and does nothing else: the status and the title stay, and the one call made is
  the write to the address field; no resolution, no status update, no load.
\<close>

theorem on_url_changed_only_address:
  "address (on_url_changed qurl st) = toString qurl \<and>
   status (on_url_changed qurl st) = status st \<and>
   title (on_url_changed qurl st) = title st \<and>
   calls (on_url_changed qurl st) = calls st @ [Address_setText (toString qurl)] \<and>
   calls_added (on_url_changed qurl) st = [Address_setText (toString qurl)] \<and>
   (\<forall>h. Resolve_dns h \<notin> set (calls_added (on_url_changed qurl) st)) \<and>
   (\<forall>t. Status_setText t \<notin> set (calls_added (on_url_changed qurl) st)) \<and>
   (\<forall>u. View_load u \<notin> set (calls_added (on_url_changed qurl) st))"
  by (simp add: on_url_changed_def address_setText_def calls_added_def)

text \<open>C8 at a state with a typed address and the status still \<^verbatim>\<open>Ready\<close>.\<close>

theorem on_url_changed_only_address_witness:
  "address (on_url_changed (QUrl (ascii ''https://www.iana.org/help/example-domains''))
      (type_address (ascii ''example.com'') widgets_created)) =
     ascii ''https://www.iana.org/help/example-domains'' \<and>
   status (on_url_changed (QUrl (ascii ''https://www.iana.org/help/example-domains''))
      (type_address (ascii ''example.com'') widgets_created)) = ascii ''Ready'' \<and>
   calls (on_url_changed (QUrl (ascii ''https://www.iana.org/help/example-domains''))
      (type_address (ascii ''example.com'') widgets_created)) =
     [Address_setText (ascii ''https://www.iana.org/help/example-domains'')]"
  using on_url_changed_only_address
    [of "QUrl (ascii ''https://www.iana.org/help/example-domains'')"
        "type_address (ascii ''example.com'') widgets_created"]
  by (simp add: typed_state)

text \<open>
  C9. Home sets the address field to \<^verbatim>\<open>https://example.com\<close>, and what follows is what
  Go does after that URL was typed: the same status, address and title result, and the
  same calls after the write to the address field.
\<close>

theorem go_home_as_manual_entry:
  "address (fire Home env st) = ascii ''https://example.com'' \<and>
   status (fire Home env st) =
     status (fire Go env (type_address (ascii ''https://example.com'') st)) \<and>
   address (fire Home env st) =
     address (fire Go env (type_address (ascii ''https://example.com'') st)) \<and>
   title (fire Home env st) =
     title (fire Go env (type_address (ascii ''https://example.com'') st)) \<and>
   calls_added (fire Home env) st =
     Address_setText (ascii ''https://example.com'') #
     calls_added (fire Go env) (type_address (ascii ''https://example.com'') st)"
proof -
  let ?home = "ascii ''https://example.com''"
  let ?typed = "type_address ?home st"
  have s: "address_setText ?home st = ?typed\<lparr>calls := calls st @ [Address_setText ?home]\<rparr>"
    by (simp add: address_setText_def type_address_def)
  have g: "fire Home env st =
     (load_from_address env ?typed)
       \<lparr>calls := (calls st @ [Address_setText ?home]) @ calls_added (load_from_address env) ?typed\<rparr>"
    by (simp add: go_home_def s load_from_address_calls)
  have k: "address (load_from_address env ?typed) = ?home"
    using load_from_address_keeps [of env ?typed] by (simp add: type_address_def)
  have ca: "calls_added (fire Go env) ?typed = calls_added (load_from_address env) ?typed"
    by (simp add: calls_added_def)
  have "calls_added (fire Home env) st = drop (length (calls st)) (calls (fire Home env st))"
    by (simp only: calls_added_def)
  also have "\<dots> = Address_setText ?home # calls_added (load_from_address env) ?typed"
    unfolding g by simp
  finally have c: "calls_added (fire Home env) st =
      Address_setText ?home # calls_added (fire Go env) ?typed"
    using ca by simp
  have f: "fire Go env ?typed = load_from_address env ?typed" by simp
  have "address (fire Home env st) = ?home" unfolding g using k by simp
  moreover have "status (fire Home env st) = status (fire Go env ?typed)" unfolding g f by simp
  moreover have "address (fire Home env st) = address (fire Go env ?typed)" unfolding g f by simp
  moreover have "title (fire Home env st) = title (fire Go env ?typed)" unfolding g f by simp
  ultimately show ?thesis using c by blast
qed

text \<open>C9 with the sample collaborators, from the state before the first navigation.\<close>

theorem go_home_as_manual_entry_witness:
  "calls_added (fire Go sample_env) (type_address (ascii ''https://example.com'') widgets_created) =
     [Resolve_dns (ascii ''example.com''),
      Status_setText
        (ascii ''DNS: example.com '' @ [0x2192] @ ascii '' 93.184.216.34, 2606:2800:220:1::1''),
      View_load (QUrl (ascii ''https://example.com''))] \<and>
   calls_added (fire Home sample_env) widgets_created =
     [Address_setText (ascii ''https://example.com''),
      Resolve_dns (ascii ''example.com''),
      Status_setText
        (ascii ''DNS: example.com '' @ [0x2192] @ ascii '' 93.184.216.34, 2606:2800:220:1::1''),
      View_load (QUrl (ascii ''https://example.com''))]"
proof -
  let ?st = "type_address (ascii ''https://example.com'') widgets_created"
  have u: "urlparse_hostname sample_env (normalize_url (address ?st)) = Inr (Some (ascii ''example.com''))"
    by (simp add: typed_state normalize_url_home sample_parse)
  have r: "resolve_dns (getaddrinfo sample_env) (or_empty (Some (ascii ''example.com''))) =
     Inr [ascii ''93.184.216.34'', ascii ''2606:2800:220:1::1'']"
    using sample_resolve by simp
  have m: "calls_added (fire Go sample_env) ?st =
     [Resolve_dns (ascii ''example.com''),
      Status_setText
        (ascii ''DNS: example.com '' @ [0x2192] @ ascii '' 93.184.216.34, 2606:2800:220:1::1''),
      View_load (QUrl (ascii ''https://example.com''))]"
    using load_from_address_parsed [OF u r refl]
    by (simp add: calls_added_def typed_state normalize_url_home) (simp add: ascii_def)
  show ?thesis using go_home_as_manual_entry [of sample_env widgets_created] m by simp
qed

text \<open>
  C10. The constructor writes \<^verbatim>\<open>https://example.com\<close> to the address field and
  navigates at once, as Home does: a status update and then the load of that URL on the
  view, with a resolution before them unless parsing raised. The home URL has the scheme
  \<^verbatim>\<open>https\<close> and differs from the fallback \<^verbatim>\<open>http://example.com\<close> that
  \<open>normalize_url\<close> gives for empty input.
\<close>

theorem PyBrowser_init_navigates:
  "address (PyBrowser_init env) = ascii ''https://example.com'' \<and>
   PyBrowser_init env = fire Home env widgets_created \<and>
   (\<exists>cs line.
      calls (PyBrowser_init env) =
        Address_setText (ascii ''https://example.com'') # cs @
        [Status_setText line, View_load (QUrl (ascii ''https://example.com''))] \<and>
      status (PyBrowser_init env) = line \<and> (cs = [] \<or> (\<exists>h. cs = [Resolve_dns h]))) \<and>
   prefix (ascii ''https://'') (ascii ''https://example.com'') \<and>
   normalize_url [] = ascii ''http://example.com'' \<and>
   ascii ''https://example.com'' \<noteq> normalize_url []"
proof -
  let ?home = "ascii ''https://example.com''"
  let ?st = "address_setText ?home widgets_created"
  have a: "address ?st = ?home" "calls ?st = [Address_setText ?home]"
    by (simp_all add: address_setText_def widgets_created_def)
  have 1: "address (PyBrowser_init env) = ?home"
    using load_from_address_keeps [of env ?st] a by (simp add: PyBrowser_init_def)
  have 2: "PyBrowser_init env = fire Home env widgets_created"
    by (simp add: PyBrowser_init_def go_home_def)
  have 3: "\<exists>cs line.
      calls (PyBrowser_init env) =
        Address_setText ?home # cs @ [Status_setText line, View_load (QUrl ?home)] \<and>
      status (PyBrowser_init env) = line \<and> (cs = [] \<or> (\<exists>h. cs = [Resolve_dns h]))"
    using load_from_address_sets_status [of env ?st] a
    by (simp add: PyBrowser_init_def normalize_url_home)
  have 4: "normalize_url [] = ascii ''http://example.com''"
    by (simp add: normalize_url_def strip_def)
  have 5: "prefix (ascii ''https://'') ?home" "?home \<noteq> ascii ''http://example.com''"
    by (simp_all add: ascii_def)
  show ?thesis using 1 2 3 4 5 by simp
qed

text \<open>C10 with the sample collaborators: the whole state after construction.\<close>

theorem PyBrowser_init_navigates_witness:
  "PyBrowser_init sample_env =
     \<lparr>address = ascii ''https://example.com'',
      status = ascii ''DNS: example.com '' @ [0x2192] @ ascii '' 93.184.216.34, 2606:2800:220:1::1'',
      title = ascii ''PyBrowser'',
      calls =
        [Address_setText (ascii ''https://example.com''),
         Resolve_dns (ascii ''example.com''),
         Status_setText
           (ascii ''DNS: example.com '' @ [0x2192] @ ascii '' 93.184.216.34, 2606:2800:220:1::1''),
         View_load (QUrl (ascii ''https://example.com''))]\<rparr>"
proof -
  let ?st = "address_setText (ascii ''https://example.com'') widgets_created"
  have a: "address ?st = ascii ''https://example.com''"
    by (simp add: address_setText_def)
  have u: "urlparse_hostname sample_env (normalize_url (address ?st)) = Inr (Some (ascii ''example.com''))"
    by (simp add: a normalize_url_home sample_parse)
  have r: "resolve_dns (getaddrinfo sample_env) (or_empty (Some (ascii ''example.com''))) =
     Inr [ascii ''93.184.216.34'', ascii ''2606:2800:220:1::1'']"
    using sample_resolve by simp
  have "fire Home sample_env widgets_created =
     \<lparr>address = ascii ''https://example.com'',
      status = ascii ''DNS: example.com '' @ [0x2192] @ ascii '' 93.184.216.34, 2606:2800:220:1::1'',
      title = ascii ''PyBrowser'',
      calls =
        [Address_setText (ascii ''https://example.com''),
         Resolve_dns (ascii ''example.com''),
         Status_setText
           (ascii ''DNS: example.com '' @ [0x2192] @ ascii '' 93.184.216.34, 2606:2800:220:1::1''),
         View_load (QUrl (ascii ''https://example.com''))]\<rparr>"
    using load_from_address_parsed [OF u r refl]
    by (simp add: go_home_def a normalize_url_home)
      (simp add: address_setText_def widgets_created_def ascii_def)
  then show ?thesis using PyBrowser_init_navigates [of sample_env] by simp
qed

end
